theory Spec2Isabelle
  imports Main "HOL-Library.Char_ord" "HOL-Library.List_Lexorder" "HOL-Library.Sublist"
    "HOL-Library.AList"
begin

section \<open>Python built-ins used by the program\<close>

text \<open>
  A Python \<open>str\<close> is modelled as a \<open>string\<close>; one \<open>char\<close> stands for one code point
  (code points below 256 only). Python compares strings lexicographically by code point,
  which is the order of \<open>HOL-Library.List_Lexorder\<close> over \<open>HOL-Library.Char_ord\<close>.
  Python integers are \<open>int\<close>; counters that start at a non-negative value and are only
  incremented are \<open>nat\<close>.
\<close>

text \<open>\<open>xs[i:j]\<close>: indices are clipped to the list, negative ones count from the end.\<close>

definition py_slice :: "'a list \<Rightarrow> int \<Rightarrow> int \<Rightarrow> 'a list" where
  "py_slice xs i j =
     (let n = int (length xs);
          lo = (if i < 0 then max 0 (i + n) else min i n);
          hi = (if j < 0 then max 0 (j + n) else min j n)
      in take (nat (hi - lo)) (drop (nat lo) xs))"

text \<open>\<open>str.isspace\<close> on one character, for the code points below 256.\<close>

definition is_space :: "char \<Rightarrow> bool" where
  "is_space c = (of_char c \<in> {9, 10, 11, 12, 13, 28, 29, 30, 31, 32, 133, 160 :: nat})"

definition lstrip :: "string \<Rightarrow> string" where
  "lstrip s = dropWhile is_space s"

definition rstrip :: "string \<Rightarrow> string" where
  "rstrip s = rev (dropWhile is_space (rev s))"

text \<open>\<open>s.strip()\<close>\<close>

definition strip :: "string \<Rightarrow> string" where
  "strip s = rstrip (lstrip s)"

text \<open>\<open>s.rstrip(chars)\<close>\<close>

definition rstrip_chars :: "string \<Rightarrow> string \<Rightarrow> string" where
  "rstrip_chars s chars = rev (dropWhile (\<lambda>c. c \<in> set chars) (rev s))"

text \<open>\<open>s.find(sub)\<close>: the lowest index at which \<open>sub\<close> occurs, \<open>-1\<close> when it does not.\<close>

fun str_find :: "string \<Rightarrow> string \<Rightarrow> int" where
  "str_find [] sub = (if sub = [] then 0 else -1)"
| "str_find (c # cs) sub =
     (if prefix sub (c # cs) then 0
      else let i = str_find cs sub in if i < 0 then -1 else i + 1)"

text \<open>\<open>sub in s\<close>\<close>

definition str_in :: "string \<Rightarrow> string \<Rightarrow> bool" where
  "str_in sub s = (0 \<le> str_find s sub)"

text \<open>\<open>s.endswith(suf)\<close>\<close>

definition endswith :: "string \<Rightarrow> string \<Rightarrow> bool" where
  "endswith s suf = suffix suf s"

text \<open>
  \<open>s.replace(old, new)\<close>: every non-overlapping occurrence of \<open>old\<close>, found from left to
  right, is replaced; an empty \<open>old\<close> matches before every character and at the end.
\<close>

function replace :: "string \<Rightarrow> string \<Rightarrow> string \<Rightarrow> string" where
  "replace [] old new = (if old = [] then new else [])"
| "replace (c # cs) old new =
     (if old = [] then new @ c # replace cs old new
      else if prefix old (c # cs) then new @ replace (drop (length old) (c # cs)) old new
      else c # replace cs old new)"
  by pat_completeness auto
termination
  by (relation "measure (\<lambda>(s, old, new). length s)") auto

text \<open>Decimal digits of a non-negative integer, and the format \<open>{n:03d}\<close>.\<close>

definition digit_char :: "nat \<Rightarrow> char" where
  "digit_char d = char_of (48 + d)"

fun str_of_nat :: "nat \<Rightarrow> string" where
  "str_of_nat n =
     (if n < 10 then [digit_char n] else str_of_nat (n div 10) @ [digit_char (n mod 10)])"

declare str_of_nat.simps [simp del]


text \<open>\<open>os.path.basename\<close>, \<open>os.path.dirname\<close> and \<open>os.path.join\<close> (POSIX flavour).\<close>

definition basename :: "string \<Rightarrow> string" where
  "basename p = rev (takeWhile (\<lambda>c. c \<noteq> CHR ''/'') (rev p))"

definition dirname :: "string \<Rightarrow> string" where
  "dirname p =
     (let head = rev (dropWhile (\<lambda>c. c \<noteq> CHR ''/'') (rev p))
      in if head \<noteq> [] \<and> head \<noteq> replicate (length head) CHR ''/''
         then rstrip_chars head ''/'' else head)"

definition path_join :: "string \<Rightarrow> string \<Rightarrow> string" where
  "path_join a b =
     (if prefix ''/'' b then b
      else if a = [] \<or> endswith a ''/'' then a @ b
      else a @ ''/'' @ b)"

text \<open>
  A \<open>pathlib.Path\<close> is kept as its parsed parts: the string of the parent directory and
  the final component. \<open>joinpath\<close> is the operator \<open>/\<close> of a directory and a plain name.
\<close>

record path =
  parent :: string
  name :: string




section \<open>The file system\<close>

text \<open>
  A regular file is the sequence of its lines, each with its line terminator, as Python's
  text layer yields them when the file is iterated or read. \<open>files\<close> is what is on disk;
  \<open>dirs\<close> are the directories (the current directory \<open>.\<close> and the root \<open>/\<close> always
  exist); \<open>denied\<close> are the paths at which the process is not permitted to create a
  directory. \<open>io_budget\<close> is the number of operations on an output file (opening it for
  writing, one \<open>write\<close> call, closing it) that still succeed before the environment raises
  an I/O exception, for whatever reason (a full disk, a directory that is missing or
  read-only, a directory at the path of the file); \<open>None\<close> means that none fails. Once an
  operation has failed, the later ones fail as well.
\<close>

record filesystem =
  files :: "string \<rightharpoonup> string list"
  dirs :: "string set"
  denied :: "string set"
  io_budget :: "nat option"

datatype exn =
  FileNotFoundError | FileExistsError | NotADirectoryError | PermissionError | OSError | Exception

definition isdir :: "filesystem \<Rightarrow> string \<Rightarrow> bool" where
  "isdir fs p = (p \<in> dirs fs \<or> p = ''.'' \<or> p = ''/'')"

definition path_exists :: "filesystem \<Rightarrow> string \<Rightarrow> bool" where
  "path_exists fs p = (p \<in> dom (files fs) \<or> isdir fs p)"

text \<open>The directory that holds \<open>p\<close>; a path of one component lies in the current directory.\<close>

definition parent_dir :: "string \<Rightarrow> string" where
  "parent_dir p = (if dirname p \<noteq> [] then dirname p else ''.'')"


text \<open>The directories above \<open>p\<close>, the nearest first.\<close>

function ancestors :: "string \<Rightarrow> string list" where
  "ancestors p =
     (if dirname p \<noteq> [] \<and> length (dirname p) < length p
      then dirname p # ancestors (dirname p) else [])"
  by pat_completeness auto
termination by (relation "measure length") auto

declare ancestors.simps [simp del]

text \<open>
  \<open>os.makedirs(d, exist_ok=True)\<close> creates the directories of the path that do not
  exist, from the outermost to \<open>d\<close> itself, each one inside a directory that exists or
  has just been created. It stops at the first one that cannot be created, below a
  regular file or where the permission is refused; the directories created before that
  stay.
\<close>

fun create_missing :: "string list \<Rightarrow> filesystem \<Rightarrow> exn option \<times> filesystem" where
  "create_missing [] fs = (None, fs)"
| "create_missing (p # ps) fs =
     (if parent_dir p \<in> dom (files fs) then (Some NotADirectoryError, fs)
      else if p \<in> denied fs then (Some PermissionError, fs)
      else create_missing ps (fs\<lparr>dirs := insert p (dirs fs)\<rparr>))"

definition makedirs :: "string \<Rightarrow> filesystem \<Rightarrow> exn option \<times> filesystem" where
  "makedirs d fs =
     create_missing (filter (\<lambda>p. \<not> path_exists fs p) (rev (d # ancestors d))) fs"

text \<open>One operation on an output file: it raises when the budget is used up.\<close>

definition tick :: "filesystem \<Rightarrow> exn + filesystem" where
  "tick fs =
     (case io_budget fs of
        None \<Rightarrow> Inr fs
      | Some 0 \<Rightarrow> Inl OSError
      | Some (Suc b) \<Rightarrow> Inr (fs\<lparr>io_budget := Some b\<rparr>))"

text \<open>
  A file object open for writing: its path and the lines written to it that are still in
  its buffer. The buffer is taken to hold a whole output file, so that the lines reach
  the disk when the file is closed. (A buffer that fills up earlier puts lines of the file
  being written on disk earlier; it changes neither which files exist nor the files
  that have been closed.)
\<close>

type_synonym handle = "string \<times> string list"

text \<open>\<open>open(p, 'w')\<close> creates or truncates the file on disk.\<close>

definition open_w :: "string \<Rightarrow> filesystem \<Rightarrow> exn + handle \<times> filesystem" where
  "open_w p fs =
     (case tick fs of
        Inl e \<Rightarrow> Inl e
      | Inr fs' \<Rightarrow> Inr ((p, []), fs'\<lparr>files := (files fs')(p \<mapsto> [])\<rparr>))"

text \<open>\<open>outfile.write(...)\<close> puts the lines into the buffer.\<close>

definition write_lines :: "handle \<Rightarrow> string list \<Rightarrow> filesystem \<Rightarrow> exn + handle \<times> filesystem" where
  "write_lines h ls fs =
     (case tick fs of
        Inl e \<Rightarrow> Inl e
      | Inr fs' \<Rightarrow> Inr ((fst h, snd h @ ls), fs'))"

text \<open>
  \<open>outfile.close()\<close> writes the buffer to the disk. When it raises, the buffered lines
  are not on disk.
\<close>

definition close_file :: "handle \<Rightarrow> filesystem \<Rightarrow> exn + filesystem" where
  "close_file h fs =
     (case tick fs of
        Inl e \<Rightarrow> Inl e
      | Inr fs' \<Rightarrow>
          Inr (fs'\<lparr>files :=
                 (files fs')(fst h \<mapsto> (case files fs' (fst h) of None \<Rightarrow> [] | Some old \<Rightarrow> old) @ snd h)\<rparr>))"


section \<open>File splitter and merger (text\_splitter.py)\<close>







text \<open>
  The loop of \<open>merge_text_files\<close> that copies every matched file into the output file. It
  gives the file object back also when it raises, for the \<open>with\<close> statement to close it.
\<close>

fun merge_loop :: "handle \<Rightarrow> string list \<Rightarrow> filesystem \<Rightarrow> exn option \<times> handle \<times> filesystem" where
  "merge_loop h [] fs = (None, h, fs)"
| "merge_loop h (file_path # rest) fs =
     (case files fs file_path of
        None \<Rightarrow> (Some OSError, h, fs)
      | Some content \<Rightarrow>
          (case write_lines h content fs of
             Inl e \<Rightarrow> (Some e, h, fs)
           | Inr (h', fs') \<Rightarrow> merge_loop h' rest fs'))"

text \<open>The default output name, and the name synthesized inside an existing directory.\<close>

definition default_output_file :: "string \<Rightarrow> string" where
  "default_output_file file_pattern =
     (let base_pattern = replace (replace file_pattern ''_part_*.txt'' '''') ''*'' ''merged''
      in base_pattern @ ''_merged.txt'')"

definition output_file_in_dir :: "string \<Rightarrow> string \<Rightarrow> string" where
  "output_file_in_dir output_file file_pattern =
     (let base_name = replace (replace (basename file_pattern) ''*'' ''merged'') ''.txt'' ''''
      in path_join output_file (base_name @ ''_merged.txt''))"

text \<open>
  \<open>glob\<close> is \<open>glob.glob\<close> on the file system at the time of the call. The result is
  \<open>Inl\<close> for a raised exception, \<open>Inr None\<close> for the \<open>None\<close> of the \<open>except\<close> branch
  and \<open>Inr (Some f)\<close> for the name of the merged file. The directory is created before
  the \<open>try\<close> block, so that its exception reaches the caller. The \<open>with\<close> statement
  closes the output file when the loop is left, also by an exception.
\<close>

definition merge_text_files ::
  "(string \<Rightarrow> string list) \<Rightarrow> string \<Rightarrow> string option \<Rightarrow> string option \<Rightarrow> filesystem
    \<Rightarrow> (exn + string option) \<times> filesystem" where
  "merge_text_files glob file_pattern output_file source_folder fs =
     (let search_pattern =
            (case source_folder of
               None \<Rightarrow> file_pattern
             | Some d \<Rightarrow> if d \<noteq> [] then path_join d file_pattern else file_pattern);
          matched = sort (glob search_pattern)
      in if matched = [] then (Inl FileNotFoundError, fs)
         else
           let output_file1 =
                 (case output_file of None \<Rightarrow> default_output_file file_pattern | Some f \<Rightarrow> f);
               output_file2 =
                 (if isdir fs output_file1 then output_file_in_dir output_file1 file_pattern
                  else output_file1);
               output_dir = (if dirname output_file2 \<noteq> [] then dirname output_file2 else ''.'')
           in case (if \<not> path_exists fs output_dir then makedirs output_dir fs else (None, fs)) of
                (Some e, fs1) \<Rightarrow> (Inl e, fs1)
              | (None, fs1) \<Rightarrow>
                  (case open_w output_file2 fs1 of
                     Inl e \<Rightarrow> (Inr None, fs1)
                   | Inr (h, fs2) \<Rightarrow>
                       (case merge_loop h matched fs2 of
                          (Some e, h', fs3) \<Rightarrow>
                            (Inr None, (case close_file h' fs3 of Inl e' \<Rightarrow> fs3 | Inr fs4 \<Rightarrow> fs4))
                        | (None, h', fs3) \<Rightarrow>
                            (case close_file h' fs3 of
                               Inl e \<Rightarrow> (Inr None, fs3)
                             | Inr fs4 \<Rightarrow> (Inr (Some output_file2), fs4)))))"
section \<open>Text protector (ai\_translator.py)\<close>

text \<open>
  Of the regular expressions in \<open>DEFAULT_PATTERNS\<close>, those of the shape
  \<open>l[^r]*r\<close> are modelled: an opening character, any characters other than the closing
  one, the closing character. The flags \<open>IGNORECASE\<close> and \<open>MULTILINE\<close> do not change
  what they match.
\<close>

datatype pattern = Delimited char char

definition curly_braces :: pattern where
  "curly_braces = Delimited CHR ''{'' CHR ''}''"

definition square_brackets :: pattern where
  "square_brackets = Delimited CHR ''['' CHR '']''"

definition angle_brackets :: pattern where
  "angle_brackets = Delimited CHR ''<'' CHR ''>''"

text \<open>The length of the match of a pattern at the start of a string, if there is one.\<close>

fun match_at :: "pattern \<Rightarrow> string \<Rightarrow> nat option" where
  "match_at (Delimited l r) [] = None"
| "match_at (Delimited l r) (c # cs) =
     (if c = l \<and> r \<in> set cs then Some (Suc (Suc (length (takeWhile (\<lambda>x. x \<noteq> r) cs))))
      else None)"

definition placeholder_prefix :: string where
  "placeholder_prefix = CHR 0xA7 # ''PROTECTED_''"

definition placeholder_suffix :: string where
  "placeholder_suffix = [CHR 0xA7]"

text \<open>
  \<open>re.sub(pattern, replace_match, protected_text)\<close> with the closure \<open>replace_match\<close>
  of \<open>protect_text\<close>: the state is the counter and the dictionary \<open>placeholders\<close>, an
  association list in insertion order.
\<close>

function re_sub_replace_match ::
  "pattern \<Rightarrow> string \<Rightarrow> nat \<times> (string \<times> string) list
    \<Rightarrow> string \<times> nat \<times> (string \<times> string) list" where
  "re_sub_replace_match p [] st = ([], st)"
| "re_sub_replace_match p (c # cs) st =
     (case match_at p (c # cs) of
        None \<Rightarrow>
          (case re_sub_replace_match p cs st of (out, st') \<Rightarrow> (c # out, st'))
      | Some n \<Rightarrow>
          (let placeholder_counter = fst st + 1;
               placeholder =
                 placeholder_prefix @ str_of_nat placeholder_counter @ placeholder_suffix;
               placeholders = AList.update placeholder (take n (c # cs)) (snd st)
           in case re_sub_replace_match p (drop n (c # cs)) (placeholder_counter, placeholders) of
                (out, st') \<Rightarrow> (placeholder @ out, st')))"
  by pat_completeness auto
termination
  by (relation "measure (\<lambda>(p, s, st). length s)") (auto elim: match_at.elims split: if_splits)

text \<open>
  \<open>enabled\<close> lists the patterns of \<open>self.enabled_patterns\<close> in the order in which the
  loop \<open>for pattern_name in self.enabled_patterns\<close> visits that set.
\<close>

definition protect_text :: "pattern list \<Rightarrow> string \<Rightarrow> string \<times> (string \<times> string) list" where
  "protect_text enabled text =
     (if text = [] \<or> enabled = [] then (text, [])
      else
        case fold (\<lambda>p (protected_text, st). re_sub_replace_match p protected_text st)
               enabled (text, 0, []) of
          (protected_text, placeholder_counter, placeholders) \<Rightarrow> (protected_text, placeholders))"

definition restore_text :: "string \<Rightarrow> (string \<times> string) list \<Rightarrow> string" where
  "restore_text translated_text placeholders =
     (if translated_text = [] \<or> placeholders = [] then translated_text
      else fold (\<lambda>(placeholder, original_text) restored_text.
                   replace restored_text placeholder original_text)
             placeholders translated_text)"

definition handle_separator_prefix_translation :: "string \<Rightarrow> string \<Rightarrow> string \<times> bool" where
  "handle_separator_prefix_translation text separator =
     (if \<not> str_in separator text then (text, False)
      else
        let separator_index = str_find text separator;
            suffix = strip (py_slice text (separator_index + int (length separator))
                              (int (length text)))
        in if suffix = [] then (text, False) else (suffix, True))"

definition restore_separator_prefix_translation :: "string \<Rightarrow> string \<Rightarrow> string \<Rightarrow> string" where
  "restore_separator_prefix_translation original_text translated_suffix separator =
     (if \<not> str_in separator original_text then translated_suffix
      else
        let separator_index = str_find original_text separator;
            prefix = py_slice original_text 0 (separator_index + int (length separator))
        in if \<not> endswith prefix '' '' then strip (prefix @ '' '' @ translated_suffix)
           else strip (prefix @ translated_suffix))"

section \<open>Gemini translator (ai\_translator.py)\<close>

text \<open>
  \<open>respond\<close> stands for the request to the API followed by
  \<open>_clean_translation_result\<close>: given the protected text and the two language codes it
  raises or returns the cleaned reply. \<open>client_ready\<close> is \<open>self.client is not None\<close>.
  Prompt type and custom prompt only reach the request and are left out.
\<close>

record gemini_translator =
  client_ready :: bool
  enabled_patterns :: "pattern list"
  respond :: "string \<Rightarrow> string \<Rightarrow> string \<Rightarrow> exn + string"

text \<open>
  Translating functions return their result together with the list of the texts they
  have sent to a backend, in order.
\<close>

definition translate_text ::
  "gemini_translator \<Rightarrow> string \<Rightarrow> string \<Rightarrow> string \<Rightarrow> bool \<Rightarrow> bool \<Rightarrow> string
    \<Rightarrow> (exn + string) \<times> string list" where
  "translate_text g text source_lang target_lang protect_special_text
       translate_only_after_separator custom_separator =
     (if \<not> client_ready g then (Inl Exception, [])
      else if text = [] \<or> strip text = [] then (Inr text, [])
      else
        let original_full_text = text;
            (text_to_translate, has_separator) =
              (if translate_only_after_separator
               then handle_separator_prefix_translation text custom_separator
               else (text, False))
        in if translate_only_after_separator \<and> \<not> has_separator
           then (Inr original_full_text, [])
           else
             let text = (if has_separator then text_to_translate else text);
                 (protected_text, placeholders) =
                   (if protect_special_text then protect_text (enabled_patterns g) text
                    else (text, []))
             in if strip protected_text = [] \<or> strip protected_text \<in> snd ` set placeholders
                then (Inr (if translate_only_after_separator \<and> has_separator
                           then original_full_text else text), [])
                else
                  case respond g protected_text source_lang target_lang of
                    Inl e \<Rightarrow> (Inl Exception, [protected_text])
                  | Inr cleaned \<Rightarrow>
                      (let translated_text =
                             (if protect_special_text \<and> placeholders \<noteq> []
                              then restore_text cleaned placeholders else cleaned);
                           translated_text =
                             (if translate_only_after_separator \<and> has_separator
                              then restore_separator_prefix_translation original_full_text
                                     translated_text custom_separator
                              else translated_text)
                       in (Inr translated_text, [protected_text])))"

section \<open>Translation fallback chain (translation\_manager.py)\<close>

text \<open>
  An engine is \<open>_try_gemini\<close> or one of the other backends, a function of the text and the
  two language codes that raises or returns a string.
\<close>

datatype engine = Try_gemini | Backend "string \<Rightarrow> string \<Rightarrow> string \<Rightarrow> exn + string"

record translation_engine =
  engines :: "engine list"
  gemini :: "gemini_translator option"

definition try_gemini ::
  "translation_engine \<Rightarrow> string \<Rightarrow> string \<Rightarrow> string \<Rightarrow> bool \<Rightarrow> string
    \<Rightarrow> (exn + string) \<times> string list" where
  "try_gemini te text source_lang target_lang translate_only_after_separator custom_separator =
     (case gemini te of
        None \<Rightarrow> (Inl Exception, [])
      | Some g \<Rightarrow>
          (case translate_text g text source_lang target_lang True
                  translate_only_after_separator custom_separator of
             (Inl e, sent) \<Rightarrow> (Inl Exception, sent)
           | (Inr result, sent) \<Rightarrow> (Inr result, sent)))"

text \<open>The body of the \<open>try\<close> block up to the assignment of \<open>result\<close>, for one engine.\<close>

fun call_engine ::
  "translation_engine \<Rightarrow> engine \<Rightarrow> string \<Rightarrow> string \<Rightarrow> string \<Rightarrow> bool \<Rightarrow> string
    \<Rightarrow> (exn + string) \<times> string list" where
  "call_engine te Try_gemini text source_lang target_lang only_after custom_separator =
     try_gemini te text source_lang target_lang only_after custom_separator"
| "call_engine te (Backend engine) text source_lang target_lang only_after custom_separator =
     (if only_after \<and> str_in custom_separator text then
        let separator_index = str_find text custom_separator;
            prefix = py_slice text 0 (separator_index + int (length custom_separator));
            suffix = strip (py_slice text (separator_index + int (length custom_separator))
                              (int (length text)))
        in if suffix \<noteq> [] then
             (case engine suffix source_lang target_lang of
                Inl e \<Rightarrow> (Inl e, [suffix])
              | Inr translated_suffix \<Rightarrow>
                  (if translated_suffix \<noteq> [] \<and> translated_suffix \<noteq> suffix then
                     (if \<not> endswith prefix '' ''
                      then (Inr (strip (prefix @ '' '' @ translated_suffix)), [suffix])
                      else (Inr (strip (prefix @ translated_suffix)), [suffix]))
                   else (Inr text, [suffix])))
           else (Inr text, [])
      else
        (case engine text source_lang target_lang of
           Inl e \<Rightarrow> (Inl e, [text])
         | Inr result \<Rightarrow> (Inr result, [text])))"

text \<open>The loop \<open>for engine in self.engines\<close> and the final \<open>return text\<close>.\<close>

fun try_engines ::
  "translation_engine \<Rightarrow> engine list \<Rightarrow> string \<Rightarrow> string \<Rightarrow> string \<Rightarrow> bool \<Rightarrow> string
    \<Rightarrow> string \<times> string list" where
  "try_engines te [] text source_lang target_lang only_after custom_separator = (text, [])"
| "try_engines te (engine # rest) text source_lang target_lang only_after custom_separator =
     (case call_engine te engine text source_lang target_lang only_after custom_separator of
        (Inr result, sent) \<Rightarrow>
          (if result \<noteq> [] \<and> result \<noteq> text then (result, sent)
           else case try_engines te rest text source_lang target_lang only_after
                       custom_separator of
                  (r, sent') \<Rightarrow> (r, sent @ sent'))
      | (Inl e, sent) \<Rightarrow>
          (case try_engines te rest text source_lang target_lang only_after custom_separator of
             (r, sent') \<Rightarrow> (r, sent @ sent')))"

definition translate_traced ::
  "translation_engine \<Rightarrow> string \<Rightarrow> string \<Rightarrow> string \<Rightarrow> bool \<Rightarrow> string
    \<Rightarrow> string \<times> string list" where
  "translate_traced te text source_lang target_lang translate_only_after_separator
       custom_separator =
     (if text = [] \<or> strip text = [] then (text, [])
      else try_engines te (engines te) text source_lang target_lang
             translate_only_after_separator custom_separator)"

text \<open>\<open>TranslationEngine.translate\<close>: the returned string.\<close>

definition translate ::
  "translation_engine \<Rightarrow> string \<Rightarrow> string \<Rightarrow> string \<Rightarrow> bool \<Rightarrow> string \<Rightarrow> string" where
  "translate te text source_lang target_lang translate_only_after_separator custom_separator =
     fst (translate_traced te text source_lang target_lang translate_only_after_separator
            custom_separator)"

section \<open>Pagination helper (utils.py)\<close>

definition calculate_pagination :: "int \<Rightarrow> int \<Rightarrow> int \<times> int list" where
  "calculate_pagination total_items items_per_page =
     (if total_items \<le> 0 \<or> items_per_page \<le> 0 then (0, [])
      else
        let total_pages = (total_items + items_per_page - 1) div items_per_page;
            page_numbers = [1..total_pages]
        in (total_pages, page_numbers))"

definition get_page_items :: "'a list \<Rightarrow> int \<Rightarrow> int \<Rightarrow> 'a list" where
  "get_page_items items page items_per_page =
     (if page \<le> 0 \<or> items_per_page \<le> 0 then []
      else
        let start_index = (page - 1) * items_per_page;
            end_index = start_index + items_per_page
        in py_slice items start_index end_index)"

section \<open>Translation data (translation\_manager.py)\<close>

text \<open>\<open>validate_file_path\<close> and \<open>read_file_lines\<close> of utils.py; every file is readable.\<close>

definition validate_file_path :: "filesystem \<Rightarrow> string \<Rightarrow> bool" where
  "validate_file_path fs file_path =
     (file_path \<noteq> [] \<and> path_exists fs file_path \<and> files fs file_path \<noteq> None)"

definition read_file_lines :: "filesystem \<Rightarrow> string \<Rightarrow> string list" where
  "read_file_lines fs file_path =
     (if \<not> path_exists fs file_path then []
      else case files fs file_path of None \<Rightarrow> [] | Some ls \<Rightarrow> ls)"

datatype status = Pending | Completed | Skipped

record translation_line =
  line_number :: int
  original :: string
  translated :: string
  is_translated :: bool
  line_status :: status
  skip_translation :: bool

record translation_data =
  lines :: "translation_line list"
  file_path :: "string option"

text \<open>\<open>TranslationData.__init__\<close>\<close>

definition new_translation_data :: translation_data where
  "new_translation_data = \<lparr>lines = [], file_path = None\<rparr>"

text \<open>The methods return their boolean result and the updated object.\<close>

definition load_from_file ::
  "filesystem \<Rightarrow> string \<Rightarrow> translation_data \<Rightarrow> bool \<times> translation_data" where
  "load_from_file fs path td =
     (if \<not> validate_file_path fs path then (False, td)
      else
        let ls = read_file_lines fs path;
            new_lines = map (\<lambda>(i, line).
                \<lparr>line_number = int i + 1,
                 original = rstrip_chars line [CHR 0x0A, CHR 0x0D],
                 translated = [],
                 is_translated = False,
                 line_status = Pending,
                 skip_translation = False\<rparr>) (enumerate 0 ls)
        in (True, td\<lparr>lines := new_lines, file_path := Some path\<rparr>))"

definition translate_line ::
  "int \<Rightarrow> string \<Rightarrow> translation_data \<Rightarrow> bool \<times> translation_data" where
  "translate_line line_index translated_text td =
     (if 0 \<le> line_index \<and> line_index < int (length (lines td)) then
        let i = nat line_index;
            l = lines td ! i;
            l' = l\<lparr>translated := translated_text,
                   is_translated := (strip translated_text \<noteq> []),
                   line_status := (if strip translated_text \<noteq> [] then Completed else Pending)\<rparr>
        in (True, td\<lparr>lines := (lines td)[i := l']\<rparr>)
      else (False, td))"

definition toggle_skip_translation :: "int \<Rightarrow> translation_data \<Rightarrow> bool \<times> translation_data" where
  "toggle_skip_translation line_index td =
     (if 0 \<le> line_index \<and> line_index < int (length (lines td)) then
        let i = nat line_index;
            l = lines td ! i;
            current_skip = skip_translation l;
            l1 = l\<lparr>skip_translation := \<not> current_skip\<rparr>;
            l2 = (if skip_translation l1 then l1\<lparr>line_status := Skipped\<rparr>
                  else if is_translated l1 then l1\<lparr>line_status := Completed\<rparr>
                  else l1\<lparr>line_status := Pending\<rparr>)
        in (True, td\<lparr>lines := (lines td)[i := l2]\<rparr>)
      else (False, td))"

text \<open>
  A sequence of operations on one \<open>TranslationData\<close> object; a load sees the file system
  of its own moment.
\<close>

datatype td_op =
    Load_from_file filesystem string
  | Translate_line int string
  | Toggle_skip_translation int

fun apply_td_op :: "td_op \<Rightarrow> translation_data \<Rightarrow> translation_data" where
  "apply_td_op (Load_from_file fs path) td = snd (load_from_file fs path td)"
| "apply_td_op (Translate_line i t) td = snd (translate_line i t td)"
| "apply_td_op (Toggle_skip_translation i) td = snd (toggle_skip_translation i td)"

definition run_td_ops :: "td_op list \<Rightarrow> translation_data" where
  "run_td_ops ops = fold apply_td_op ops new_translation_data"

section \<open>Notions used to state the properties\<close>





text \<open>The search pattern that \<open>merge_text_files\<close> hands to \<open>glob\<close>.\<close>

definition search_pattern :: "string option \<Rightarrow> string \<Rightarrow> string" where
  "search_pattern source_folder file_pattern =
     (case source_folder of
        None \<Rightarrow> file_pattern
      | Some d \<Rightarrow> if d \<noteq> [] then path_join d file_pattern else file_pattern)"




text \<open>The output path that \<open>merge_text_files\<close> resolves before it writes.\<close>

definition resolved_output_file :: "filesystem \<Rightarrow> string \<Rightarrow> string option \<Rightarrow> string" where
  "resolved_output_file fs file_pattern output_file =
     (let output_file1 =
            (case output_file of None \<Rightarrow> default_output_file file_pattern | Some f \<Rightarrow> f)
      in if isdir fs output_file1 then output_file_in_dir output_file1 file_pattern
         else output_file1)"

section \<open>Facts about the modelled built-ins\<close>

lemma nat_int_diff: "nat (int x - int y) = x - y"
  by linarith

lemma py_slice_nat:
  "py_slice xs (int a) (int b) = take (b - a) (drop a xs)"
proof -
  have "take (min b (length xs) - min a (length xs)) (drop (min a (length xs)) xs) = take (b - a) (drop a xs)"
    by (cases "a \<le> length xs"; cases "b \<le> length xs") (simp_all add: min_def)
  then show ?thesis
    by (simp add: py_slice_def Let_def nat_int_diff flip: of_nat_min)
qed








section \<open>Properties of the file splitter and merger\<close>

subsection \<open>The writing pass\<close>


lemma tick_fail: "io_budget fs = Some 0 \<Longrightarrow> tick fs = Inl OSError"
  by (simp add: tick_def)























lemma parts_0: "0 < m \<Longrightarrow> ((0::nat) + m - 1) div m = 0"
  by simp

subsection \<open>The split as a whole\<close>










subsection \<open>An exception in the writing pass\<close>









subsection \<open>What the writing pass leaves on disk\<close>













subsection \<open>What a failed split leaves behind\<close>







subsection \<open>String replacement\<close>






lemma replace_Nil: "old \<noteq> [] \<Longrightarrow> replace [] old new = []"
  by simp




subsection \<open>The merge\<close>

lemma tick_None: "io_budget fs = None \<Longrightarrow> tick fs = Inr fs"
  by (simp add: tick_def)

lemma create_missing_keeps:
  "files (snd (create_missing ps fs)) = files fs
   \<and> io_budget (snd (create_missing ps fs)) = io_budget fs
   \<and> fst (create_missing ps fs) \<noteq> Some FileNotFoundError"
  by (induction ps arbitrary: fs) simp_all

lemma makedirs_keeps:
  "files (snd (makedirs d fs)) = files fs"
  "io_budget (snd (makedirs d fs)) = io_budget fs"
  "fst (makedirs d fs) \<noteq> Some FileNotFoundError"
  unfolding makedirs_def using create_missing_keeps by blast+

text \<open>Without an I/O exception the loop puts the content of every matched file into the buffer.\<close>

lemma merge_loop_result:
  assumes "io_budget fs = None" and "set matched \<subseteq> dom (files fs)"
  shows "merge_loop h matched fs
     = (None, (fst h, snd h @ concat (map (\<lambda>p. the (files fs p)) matched)), fs)"
  using assms
proof (induction matched arbitrary: h)
  case Nil
  show ?case by simp
next
  case (Cons p rest)
  from Cons.prems(2) obtain content where c: "files fs p = Some content" by auto
  have w: "write_lines h content fs = Inr ((fst h, snd h @ content), fs)"
    by (simp add: write_lines_def tick_None[OF Cons.prems(1)])
  have "merge_loop (fst h, snd h @ content) rest fs
      = (None, (fst (fst h, snd h @ content),
                snd (fst h, snd h @ content) @ concat (map (\<lambda>p. the (files fs p)) rest)), fs)"
    using Cons.prems by (intro Cons.IH) simp_all
  then show ?case using c w by simp
qed


lemma merge_text_files_unfold:
  assumes "glob (search_pattern source_folder file_pattern) \<noteq> []"
    and "rf = resolved_output_file fs file_pattern output_file"
    and "mk = (if \<not> path_exists fs (parent_dir rf) then makedirs (parent_dir rf) fs else (None, fs))"
  shows "merge_text_files glob file_pattern output_file source_folder fs =
     (case mk of
        (Some e, fs1) \<Rightarrow> (Inl e, fs1)
      | (None, fs1) \<Rightarrow>
          (case open_w rf fs1 of
             Inl e \<Rightarrow> (Inr None, fs1)
           | Inr (h, fs2) \<Rightarrow>
               (case merge_loop h (sort (glob (search_pattern source_folder file_pattern))) fs2 of
                  (Some e, h', fs3) \<Rightarrow>
                    (Inr None, (case close_file h' fs3 of Inl e' \<Rightarrow> fs3 | Inr fs4 \<Rightarrow> fs4))
                | (None, h', fs3) \<Rightarrow>
                    (case close_file h' fs3 of
                       Inl e \<Rightarrow> (Inr None, fs3)
                     | Inr fs4 \<Rightarrow> (Inr (Some rf), fs4)))))"
proof -
  have "sort (glob (search_pattern source_folder file_pattern)) \<noteq> []"
    using assms(1) by (metis length_sort length_0_conv)
  then show ?thesis
    unfolding merge_text_files_def search_pattern_def[symmetric] resolved_output_file_def Let_def
      assms(2,3) parent_dir_def
    by simp
qed



lemma merge_text_files_success:
  assumes "glob (search_pattern source_folder file_pattern) \<noteq> []"
    and "io_budget fs = None"
    and "set (glob (search_pattern source_folder file_pattern)) \<subseteq> dom (files fs)"
    and "path_exists fs (parent_dir (resolved_output_file fs file_pattern output_file))
         \<or> fst (makedirs (parent_dir (resolved_output_file fs file_pattern output_file)) fs) = None"
  shows "fst (merge_text_files glob file_pattern output_file source_folder fs)
       = Inr (Some (resolved_output_file fs file_pattern output_file))
     \<and> files (snd (merge_text_files glob file_pattern output_file source_folder fs))
        = (files fs)(resolved_output_file fs file_pattern output_file \<mapsto>
            concat (map (\<lambda>p. the (((files fs)(resolved_output_file fs file_pattern output_file
                                          \<mapsto> [])) p))
                      (sort (glob (search_pattern source_folder file_pattern)))))"
proof -
  define f2 where "f2 = resolved_output_file fs file_pattern output_file"
  define mk where
    "mk = (if \<not> path_exists fs (parent_dir f2) then makedirs (parent_dir f2) fs else (None, fs))"
  define matched where "matched = sort (glob (search_pattern source_folder file_pattern))"
  note u = merge_text_files_unfold[where glob=glob and source_folder=source_folder
      and file_pattern=file_pattern and rf=f2 and fs=fs and output_file=output_file and mk=mk,
      OF assms(1) f2_def mk_def, folded matched_def]
  obtain fs1 where m: "mk = (None, fs1)" and f1: "files fs1 = files fs"
    and b1: "io_budget fs1 = None"
  proof (cases "path_exists fs (parent_dir f2)")
    case True
    then have "mk = (None, fs)" by (simp add: mk_def)
    with assms(2) that show ?thesis by blast
  next
    case False
    with assms(4) have "fst (makedirs (parent_dir f2) fs) = None" by (simp add: f2_def)
    then have "mk = (None, snd (makedirs (parent_dir f2) fs))"
      using False by (simp add: mk_def prod_eq_iff)
    with that makedirs_keeps(1,2)[of "parent_dir f2" fs] assms(2) show ?thesis by simp
  qed
  define fs2 where "fs2 = fs1\<lparr>files := (files fs)(f2 \<mapsto> [])\<rparr>"
  have o: "open_w f2 fs1 = Inr ((f2, []), fs2)"
    by (simp add: open_w_def tick_None[OF b1] fs2_def f1)
  have b2: "io_budget fs2 = None" using b1 by (simp add: fs2_def)
  have s2: "set matched \<subseteq> dom (files fs2)"
    using assms(3) by (auto simp: fs2_def matched_def)
  define content where "content = concat (map (\<lambda>p. the (files fs2 p)) matched)"
  have l: "merge_loop (f2, []) matched fs2 = (None, (f2, content), fs2)"
    using merge_loop_result[OF b2 s2, of "(f2, [])"] by (simp add: content_def)
  define fs4 where "fs4 = fs2\<lparr>files := (files fs2)(f2 \<mapsto> content)\<rparr>"
  have c: "close_file (f2, content) fs2 = Inr fs4"
    unfolding close_file_def tick_None[OF b2] by (simp add: fs4_def fs2_def)
  have r: "merge_text_files glob file_pattern output_file source_folder fs = (Inr (Some f2), fs4)"
    unfolding u m by (simp add: o l c)
  have "files fs4 = (files fs)(f2 \<mapsto> content)" by (simp add: fs4_def fs2_def)
  moreover have "files fs2 = (files fs)(f2 \<mapsto> [])" by (simp add: fs2_def)
  ultimately show ?thesis
    unfolding r content_def matched_def f2_def by simp
qed

lemma merge_text_files_content:
  assumes "glob (search_pattern source_folder file_pattern) \<noteq> []"
    and "io_budget fs = None"
    and "set (glob (search_pattern source_folder file_pattern)) \<subseteq> dom (files fs)"
    and "path_exists fs (parent_dir (resolved_output_file fs file_pattern output_file))
         \<or> fst (makedirs (parent_dir (resolved_output_file fs file_pattern output_file)) fs) = None"
    and "resolved_output_file fs file_pattern output_file
           \<notin> set (glob (search_pattern source_folder file_pattern))"
  shows "files (snd (merge_text_files glob file_pattern output_file source_folder fs))
       (resolved_output_file fs file_pattern output_file)
     = Some (concat (map (\<lambda>p. the (files fs p))
                      (sort (glob (search_pattern source_folder file_pattern)))))"
proof -
  let ?f2 = "resolved_output_file fs file_pattern output_file"
  let ?matched = "sort (glob (search_pattern source_folder file_pattern))"
  have m: "map (\<lambda>p. the (((files fs)(?f2 \<mapsto> [])) p)) ?matched = map (\<lambda>p. the (files fs p)) ?matched"
    using assms(5) by (intro map_cong) auto
  note t = merge_text_files_success[where glob=glob and source_folder=source_folder
      and file_pattern=file_pattern and fs=fs and output_file=output_file, OF assms(1-4),
      THEN conjunct2]
  show ?thesis unfolding t m by simp
qed


section \<open>Properties of the translation fallback chain\<close>

subsection \<open>The chain in its default mode\<close>

lemma call_engine_plain:
  "call_engine te (Backend f) text src tgt False sep = (f text src tgt, [text])"
  by (simp split: sum.splits)

lemma try_engines_first_success:
  assumes "k < length es"
    and "\<forall>i<k. isl (fst (call_engine te (es ! i) text src tgt oa sep))"
    and "fst (call_engine te (es ! k) text src tgt oa sep) = Inr r"
    and "r \<noteq> []" and "r \<noteq> text"
  shows "fst (try_engines te es text src tgt oa sep) = r"
  using assms(1-3)
proof (induction es arbitrary: k)
  case Nil
  then show ?case by simp
next
  case (Cons e es)
  show ?case
  proof (cases k)
    case 0
    with Cons.prems(3) assms(4,5) show ?thesis
      by (cases "call_engine te e text src tgt oa sep") simp
  next
    case (Suc j)
    with Cons.prems have j: "j < length es"
      "\<forall>i<j. isl (fst (call_engine te (es ! i) text src tgt oa sep))"
      "fst (call_engine te (es ! j) text src tgt oa sep) = Inr r"
      by auto
    from Cons.prems(2) Suc have "isl (fst (call_engine te e text src tgt oa sep))"
      by auto
    then obtain x sent where "call_engine te e text src tgt oa sep = (Inl x, sent)"
      by (cases "call_engine te e text src tgt oa sep") (auto simp: isl_def)
    then show ?thesis
      using Cons.IH[OF j] by (simp add: case_prod_beta)
  qed
qed

lemma try_engines_all_fail:
  assumes "\<forall>e \<in> set es. isl (fst (call_engine te e text src tgt oa sep))
              \<or> fst (call_engine te e text src tgt oa sep) = Inr text"
  shows "fst (try_engines te es text src tgt oa sep) = text"
  using assms
proof (induction es)
  case Nil
  show ?case by simp
next
  case (Cons e es)
  then have IH: "fst (try_engines te es text src tgt oa sep) = text" by simp
  from Cons.prems have "isl (fst (call_engine te e text src tgt oa sep))
      \<or> fst (call_engine te e text src tgt oa sep) = Inr text" by simp
  then show ?case
    using IH
    by (cases "call_engine te e text src tgt oa sep")
       (auto simp: isl_def case_prod_beta)
qed

text \<open>
  Claim C3, amended. In the default mode (\<open>translate_only_after_separator\<close> false) the
  \<open>result\<close> of an engine is what the backend returns: \<open>call_engine_plain\<close>. For a text
  that is not blank: if the first \<open>k\<close> engines raise and engine \<open>k + 1\<close> returns a string
  that is not empty and differs from the text, \<open>translate\<close> returns that string. For every
  text: if every engine raises or returns the text unchanged, \<open>translate\<close> returns the text.
  \<open>translate\<close> is a total function to strings: every exception of an engine is consumed by
  the loop, so nothing is raised to the caller.
\<close>

theorem translate_fallback_chain:
  "(strip text \<noteq> [] \<and> k < length (engines te)
      \<and> (\<forall>i<k. isl (fst (call_engine te (engines te ! i) text source_lang target_lang False sep)))
      \<and> fst (call_engine te (engines te ! k) text source_lang target_lang False sep) = Inr r
      \<and> r \<noteq> [] \<and> r \<noteq> text
     \<longrightarrow> translate te text source_lang target_lang False sep = r)
   \<and> ((\<forall>e \<in> set (engines te).
          isl (fst (call_engine te e text source_lang target_lang False sep))
          \<or> fst (call_engine te e text source_lang target_lang False sep) = Inr text)
     \<longrightarrow> translate te text source_lang target_lang False sep = text)"
proof -
  have ne: "text \<noteq> []" if "strip text \<noteq> []"
    using that by (auto simp: strip_def lstrip_def rstrip_def)
  show ?thesis
    using try_engines_first_success[of k "engines te" te "text" source_lang target_lang False sep r]
      try_engines_all_fail[of "engines te" te "text" source_lang target_lang False sep] ne
    by (auto simp: translate_def translate_traced_def)
qed


theorem translate_fallback_chain_witness:
  "strip ''hello'' \<noteq> []
   \<and> isl (fst (call_engine
          \<lparr>engines = [Backend (\<lambda>t s d. Inl Exception), Backend (\<lambda>t s d. Inr ''sawasdee'')],
           gemini = None\<rparr>
          (Backend (\<lambda>t s d. Inl Exception)) ''hello'' ''en'' ''th'' False '':''))
   \<and> translate
        \<lparr>engines = [Backend (\<lambda>t s d. Inl Exception), Backend (\<lambda>t s d. Inr ''sawasdee'')],
         gemini = None\<rparr> ''hello'' ''en'' ''th'' False '':'' = ''sawasdee''
   \<and> translate
        \<lparr>engines = [Backend (\<lambda>t s d. Inl Exception), Backend (\<lambda>t s d. Inr t)],
         gemini = None\<rparr> ''hello'' ''en'' ''th'' False '':'' = ''hello''"
proof -
  let ?fail = "Backend (\<lambda>t s d. Inl Exception)"
  let ?te1 = "\<lparr>engines = [?fail, Backend (\<lambda>t s d. Inr ''sawasdee'')], gemini = None\<rparr>"
  let ?te2 = "\<lparr>engines = [?fail, Backend (\<lambda>t s d. Inr t)], gemini = None\<rparr>"
  have s: "strip ''hello'' \<noteq> []"
    by (simp add: strip_def lstrip_def rstrip_def is_space_def)
  have f: "isl (fst (call_engine ?te1 ?fail ''hello'' ''en'' ''th'' False '':''))"
    by simp
  have a: "translate ?te1 ''hello'' ''en'' ''th'' False '':'' = ''sawasdee''"
    using s translate_fallback_chain[of "''hello''" 1 ?te1 "''en''" "''th''" "'':''" "''sawasdee''"]
    by simp
  have b: "translate ?te2 ''hello'' ''en'' ''th'' False '':'' = ''hello''"
    using translate_fallback_chain[of "''hello''" 0 ?te2 "''en''" "''th''" "'':''" "[]"]
    by simp
  from s f a b show ?thesis by blast
qed

text \<open>
  Claim C3 as stated fails on a blank text: \<open>translate\<close> returns it at once, whatever the
  backends would return. Here the only backend returns \<open>''x''\<close> for the text of one space.
\<close>

theorem translate_blank_text_unchanged:
  "fst (call_engine \<lparr>engines = [Backend (\<lambda>t s d. Inr ''x'')], gemini = None\<rparr>
          (engines \<lparr>engines = [Backend (\<lambda>t s d. Inr ''x'')], gemini = None\<rparr> ! 0)
          '' '' ''en'' ''th'' False '':'') = Inr ''x''
   \<and> ''x'' \<noteq> [] \<and> ''x'' \<noteq> '' ''
   \<and> translate \<lparr>engines = [Backend (\<lambda>t s d. Inr ''x'')], gemini = None\<rparr>
         '' '' ''en'' ''th'' False '':'' = '' ''
   \<and> translate \<lparr>engines = [Backend (\<lambda>t s d. Inr ''x'')], gemini = None\<rparr>
         '' '' ''en'' ''th'' False '':'' \<noteq> ''x''"
  by code_simp

subsection \<open>Translating only after the separator\<close>

lemma blank_suffix_not_handled:
  assumes "str_in sep text"
    and "strip (py_slice text (str_find text sep + int (length sep)) (int (length text))) = []"
  shows "handle_separator_prefix_translation text sep = (text, False)"
  using assms by (simp add: handle_separator_prefix_translation_def Let_def)

lemma call_engine_blank_suffix:
  assumes "str_in sep text"
    and "strip (py_slice text (str_find text sep + int (length sep)) (int (length text))) = []"
  shows "call_engine te e text src tgt True sep = (Inr text, [])
       \<or> (\<exists>x. call_engine te e text src tgt True sep = (Inl x, []))"
proof (cases e)
  case Try_gemini
  then show ?thesis
    using blank_suffix_not_handled[OF assms]
    by (auto simp: try_gemini_def translate_text_def split: option.splits)
next
  case (Backend f)
  then show ?thesis using assms by (simp add: Let_def)
qed

lemma try_engines_blank_suffix:
  assumes "str_in sep text"
    and "strip (py_slice text (str_find text sep + int (length sep)) (int (length text))) = []"
  shows "try_engines te es text src tgt True sep = (text, [])"
proof (induction es)
  case Nil
  show ?case by simp
next
  case (Cons e es)
  with call_engine_blank_suffix[OF assms, of te e src tgt] show ?case by auto
qed

lemma translate_blank_suffix_unchanged:
  assumes "str_in sep text"
    and "strip (py_slice text (str_find text sep + int (length sep)) (int (length text))) = []"
  shows "translate_traced te text src tgt True sep = (text, [])"
  using try_engines_blank_suffix[OF assms] by (simp add: translate_traced_def)

text \<open>
  Claim C4. With \<open>translate_only_after_separator\<close> set and a text without the separator,
  \<open>translate_text\<close> of the Gemini translator returns the text and sends nothing, but the
  chain sends the whole text to the next backend and returns its translation: for the text
  \<open>''Hello''\<close> and the separator \<open>'':''\<close>, with one backend alone and with the Gemini
  translator before it. (When the separator occurs and nothing but white space follows it,
  the text is returned and nothing is sent: \<open>translate_blank_suffix_unchanged\<close>.)
\<close>

theorem translate_without_separator_sends_text:
  "\<not> str_in '':'' ''Hello''
   \<and> translate_traced \<lparr>engines = [Backend (\<lambda>t s d. Inr ''Sawasdee'')], gemini = None\<rparr>
         ''Hello'' ''en'' ''th'' True '':'' = (''Sawasdee'', [''Hello''])
   \<and> translate_text
         \<lparr>client_ready = True, enabled_patterns = [curly_braces, square_brackets],
          respond = (\<lambda>t s d. Inr ''Sawasdee'')\<rparr>
         ''Hello'' ''en'' ''th'' True True '':'' = (Inr ''Hello'', [])
   \<and> translate_traced
         \<lparr>engines = [Try_gemini, Backend (\<lambda>t s d. Inr ''Sawasdee'')],
          gemini = Some \<lparr>client_ready = True, enabled_patterns = [curly_braces, square_brackets],
                         respond = (\<lambda>t s d. Inr ''Sawasdee'')\<rparr>\<rparr>
         ''Hello'' ''en'' ''th'' True '':'' = (''Sawasdee'', [''Hello''])"
  by code_simp



















section \<open>Properties of the text protector\<close>

lemma protect_restore_spec_example:
  "(case protect_text [curly_braces, square_brackets] ''Hello {name}, you have [5] items'' of
      (protected_text, placeholders) \<Rightarrow>
        length placeholders = 2
        \<and> restore_text protected_text placeholders = ''Hello {name}, you have [5] items'')"
  by code_simp

text \<open>
  Claim C2. The text \<open>''[{a}] {[b]}''\<close> contains no placeholder and not even the
  delimiter character. With the two patterns that the translation engine enables by
  default, restoring the protected text does not give the text back, in whichever order the
  set of enabled patterns is visited: the placeholder of the inner match is stored inside
  the original text of the outer one and is looked for before the outer one is put back.
  With one pattern alone the text \<open>''{a}{b}PROTECTED_1{c}''\<close> is not restored either: the
  end of one placeholder, the text \<open>PROTECTED_1\<close> and the start of the next placeholder
  read as placeholder 1.
\<close>

theorem protect_restore_not_inverse:
  "(case protect_text [curly_braces, square_brackets] ''[{a}] {[b]}'' of
      (protected_text, placeholders) \<Rightarrow> restore_text protected_text placeholders)
     = ''['' @ placeholder_prefix @ ''1'' @ placeholder_suffix @ ''] {[b]}''
   \<and> (case protect_text [square_brackets, curly_braces] ''[{a}] {[b]}'' of
      (protected_text, placeholders) \<Rightarrow> restore_text protected_text placeholders)
     = ''[{a}] {'' @ placeholder_prefix @ ''2'' @ placeholder_suffix @ ''}''
   \<and> (case protect_text [curly_braces] ''{a}{b}PROTECTED_1{c}'' of
      (protected_text, placeholders) \<Rightarrow> restore_text protected_text placeholders)
     = ''{a}'' @ placeholder_prefix @ ''2{a}PROTECTED_3'' @ placeholder_suffix"
  by code_simp

section \<open>Properties of the pagination helper\<close>

lemma get_page_items_nat:
  assumes "0 < k"
  shows "get_page_items xs (int (Suc m)) (int k) = take k (drop (m * k) xs)"
proof -
  have s: "(int (Suc m) - 1) * int k = int (m * k)" by simp
  have e: "int (m * k) + int k = int (m * k + k)" by simp
  have "get_page_items xs (int (Suc m)) (int k) = py_slice xs (int (m * k)) (int (m * k + k))"
    using assms by (simp only: get_page_items_def Let_def s e) simp
  then show ?thesis by (simp only: py_slice_nat) simp
qed

lemma concat_pages_take:
  "concat (map (\<lambda>m. take k (drop (m * k) xs)) [0..<t]) = take (t * k) xs"
proof (induction t)
  case 0
  show ?case by simp
next
  case (Suc t)
  have "take (t * k) xs @ take k (drop (t * k) xs) = take (t * k + k) xs"
    by (simp add: take_add)
  with Suc show ?case by (simp add: add.commute)
qed

lemma upto_as_Suc: "[1..int t] = map (\<lambda>m. int (Suc m)) [0..<t]"
proof (induction t)
  case 0
  show ?case by simp
next
  case (Suc t)
  have "[1..int (Suc t)] = [1..int t] @ [int (Suc t)]"
    using upto_rec2[of 1 "int (Suc t)"] by simp
  with Suc show ?case by simp
qed

lemma total_pages_nat:
  assumes "0 < k"
  shows "fst (calculate_pagination (int n) (int k)) = int ((n + k - 1) div k)"
proof (cases "n = 0")
  case True
  with assms show ?thesis by (simp add: calculate_pagination_def)
next
  case False
  have "int n + int k - 1 = int (n + k - 1)" using assms by (simp add: of_nat_diff)
  then have "(int n + int k - 1) div int k = int ((n + k - 1) div k)"
    by (simp only: zdiv_int)
  with False assms show ?thesis by (simp add: calculate_pagination_def Let_def)
qed

lemma pages_cover:
  fixes n k :: nat
  assumes "0 < k"
  shows "n \<le> ((n + k - 1) div k) * k"
proof -
  have "n + k - 1 = ((n + k - 1) div k) * k + (n + k - 1) mod k" by simp
  moreover have "(n + k - 1) mod k < k" using assms by simp
  ultimately show ?thesis by linarith
qed

lemma concat_all_pages:
  assumes "0 < ipp"
  shows "concat (map (\<lambda>p. get_page_items xs p ipp) [1..fst (calculate_pagination (int (length xs)) ipp)]) = xs"
proof -
  obtain k where k: "ipp = int k" "0 < k" using assms
    by (metis pos_int_cases)
  let ?t = "(length xs + k - 1) div k"
  have "[1..fst (calculate_pagination (int (length xs)) ipp)] = map (\<lambda>m. int (Suc m)) [0..<?t]"
    using k by (simp only: total_pages_nat upto_as_Suc)
  then have "concat (map (\<lambda>p. get_page_items xs p ipp) [1..fst (calculate_pagination (int (length xs)) ipp)])
     = concat (map (\<lambda>m. get_page_items xs (int (Suc m)) (int k)) [0..<?t])"
    using k by (simp only: map_map comp_def)
  also have "\<dots> = concat (map (\<lambda>m. take k (drop (m * k) xs)) [0..<?t])"
    using k by (simp only: get_page_items_nat)
  also have "\<dots> = take (?t * k) xs" by (rule concat_pages_take)
  also have "\<dots> = xs" using pages_cover[OF k(2), of "length xs"] by simp
  finally show ?thesis .
qed


lemma py_slice_map: "py_slice (map f xs) i j = map f (py_slice xs i j)"
  by (simp add: py_slice_def Let_def take_map drop_map)

lemma get_page_items_map:
  "get_page_items (map f xs) p ipp = map f (get_page_items xs p ipp)"
  by (simp add: get_page_items_def Let_def py_slice_map)

lemma get_page_items_positions:
  "get_page_items xs p ipp = map ((!) xs) (get_page_items [0..<length xs] p ipp)"
proof -
  have "get_page_items (map ((!) xs) [0..<length xs]) p ipp
      = map ((!) xs) (get_page_items [0..<length xs] p ipp)"
    by (rule get_page_items_map)
  then show ?thesis by (simp only: map_nth)
qed

lemma set_page_positions:
  assumes "0 < k"
  shows "set (get_page_items [0..<n] (int (Suc m)) (int k)) = {m * k ..< min (m * k + k) n}"
proof -
  have "take k [m * k..<n] = [m * k ..< min (m * k + k) n]"
    by (cases "m * k + k \<le> n") (simp_all add: min_def)
  then show ?thesis
    using assms by (simp only: get_page_items_nat) simp
qed

lemma page_nonpos_empty: "p \<le> 0 \<Longrightarrow> get_page_items xs p ipp = []"
  by (simp add: get_page_items_def)

lemma pages_disjoint:
  assumes "0 < ipp" and "p \<noteq> q"
  shows "set (get_page_items [0..<n] p ipp) \<inter> set (get_page_items [0..<n] q ipp) = {}"
proof (cases "p \<le> 0 \<or> q \<le> 0")
  case True
  then show ?thesis by (auto simp: page_nonpos_empty)
next
  case False
  obtain k where k: "ipp = int k" "0 < k" using assms(1) by (metis pos_int_cases)
  from False obtain a b where ab: "p = int (Suc a)" "q = int (Suc b)"
    by (metis not_le pos_int_cases Suc_pred' )
  with assms(2) have ne: "a \<noteq> b" by auto
  have "{a * k ..< min (a * k + k) n} \<inter> {b * k ..< min (b * k + k) n} = {}"
  proof (cases "a < b")
    case True
    then have "Suc a \<le> b" by simp
    then have "Suc a * k \<le> b * k" by (rule mult_le_mono1)
    then show ?thesis by auto
  next
    case False
    with ne have "Suc b \<le> a" by simp
    then have "Suc b * k \<le> a * k" by (rule mult_le_mono1)
    then show ?thesis by auto
  qed
  then show ?thesis
    using k ab by (simp only: set_page_positions)
qed

lemma page_beyond_empty:
  assumes "fst (calculate_pagination (int (length xs)) ipp) < page"
  shows "get_page_items xs page ipp = []"
proof (cases "page \<le> 0 \<or> ipp \<le> 0")
  case True
  then show ?thesis by (auto simp: get_page_items_def)
next
  case False
  obtain k where k: "ipp = int k" "0 < k" using False by (metis not_le pos_int_cases)
  obtain m where m: "page = int (Suc m)" using False by (metis not_le pos_int_cases Suc_pred')
  from assms k m have "(length xs + k - 1) div k < Suc m"
    by (simp only: total_pages_nat of_nat_less_iff)
  then have "(length xs + k - 1) div k * k \<le> m * k"
    by (intro mult_le_mono1) simp
  with pages_cover[OF k(2), of "length xs"] have "length xs \<le> m * k" by linarith
  then show ?thesis using k m by (simp only: get_page_items_nat) simp
qed

text \<open>
  Claim C8. The number of items is the length of the item list, as every caller passes it
  (\<open>calculate_pagination(len(lines), lines_per_page)\<close>). For a positive page size, the
  slices of the pages \<open>1..total_pages\<close> have lengths that sum to the number of items, and
  laid end to end they are the item list itself. Page \<open>p\<close> holds the items at the positions
  that \<open>get_page_items\<close> selects from \<open>[0..<length items]\<close>, and two different pages
  select disjoint sets of positions. \<open>get_page_items\<close> is a total function (it raises
  nowhere) and returns the empty list when the page number or the page size is not positive
  or when the page number is larger than the number of pages.
\<close>

theorem get_page_items_partition:
  "(0 < items_per_page \<longrightarrow>
      (\<Sum>p\<leftarrow>[1..fst (calculate_pagination (int (length items)) items_per_page)].
          length (get_page_items items p items_per_page)) = length items
    \<and> concat (map (\<lambda>p. get_page_items items p items_per_page)
          [1..fst (calculate_pagination (int (length items)) items_per_page)]) = items
    \<and> get_page_items items p items_per_page
        = map ((!) items) (get_page_items [0..<length items] p items_per_page)
    \<and> (p \<noteq> q \<longrightarrow>
          set (get_page_items [0..<length items] p items_per_page)
            \<inter> set (get_page_items [0..<length items] q items_per_page) = {}))
   \<and> (page \<le> 0 \<or> items_per_page \<le> 0
        \<or> fst (calculate_pagination (int (length items)) items_per_page) < page
      \<longrightarrow> get_page_items items page items_per_page = [])"
proof -
  let ?pages = "[1..fst (calculate_pagination (int (length items)) items_per_page)]"
  have sum: "(\<Sum>p\<leftarrow>?pages. length (get_page_items items p items_per_page)) = length items"
    if "0 < items_per_page"
  proof -
    have "length (concat (map (\<lambda>p. get_page_items items p items_per_page) ?pages)) = length items"
      using concat_all_pages[OF that, of items] by simp
    then show ?thesis by (simp only: length_concat map_map comp_def)
  qed
  have empty: "get_page_items items page items_per_page = []"
    if "page \<le> 0 \<or> items_per_page \<le> 0
        \<or> fst (calculate_pagination (int (length items)) items_per_page) < page"
    using that page_beyond_empty[of items items_per_page page]
    by (auto simp: get_page_items_def)
  show ?thesis
    using sum concat_all_pages[of items_per_page items]
      get_page_items_positions[of items p items_per_page]
      pages_disjoint[of items_per_page p q "length items"] empty
    by blast
qed

theorem get_page_items_partition_witness:
  "(0::int) < 2
   \<and> (\<Sum>p\<leftarrow>[1..3]. length (get_page_items [10, 20, 30, 40, 50 :: nat] p 2)) = 5
   \<and> concat (map (\<lambda>p. get_page_items [10, 20, 30, 40, 50 :: nat] p 2) [1..3]) = [10, 20, 30, 40, 50]
   \<and> (1::int) \<noteq> 2
   \<and> set (get_page_items [0..<length [10, 20, 30, 40, 50 :: nat]] 1 2)
        \<inter> set (get_page_items [0..<length [10, 20, 30, 40, 50 :: nat]] 2 2) = {}
   \<and> fst (calculate_pagination 5 2) < 4
   \<and> get_page_items [10, 20, 30, 40, 50 :: nat] 4 2 = []"
proof -
  have tp: "fst (calculate_pagination (int (length [10, 20, 30, 40, 50 :: nat])) 2) = 3"
    by (simp add: calculate_pagination_def)
  show ?thesis
    using get_page_items_partition[of 2 "[10, 20, 30, 40, 50 :: nat]" 1 2 4]
    unfolding tp by (simp add: calculate_pagination_def)
qed

section \<open>The invariant of the translation data\<close>

lemma in_set_updateD: "l \<in> set (xs[i := v]) \<Longrightarrow> l = v \<or> l \<in> set xs"
  using set_update_subset_insert[of xs i v] by auto

lemma strip_Nil: "strip [] = []"
  by (simp add: strip_def lstrip_def rstrip_def)

lemma load_from_file_flags:
  assumes "\<forall>l \<in> set (lines td). is_translated l = (strip (translated l) \<noteq> [])"
  shows "\<forall>l \<in> set (lines (snd (load_from_file fs p td))).
           is_translated l = (strip (translated l) \<noteq> [])"
proof (cases "validate_file_path fs p")
  case False
  then have "snd (load_from_file fs p td) = td" by (simp add: load_from_file_def)
  with assms show ?thesis by simp
next
  case True
  define mk :: "nat \<times> string \<Rightarrow> translation_line" where
    "mk = (\<lambda>(i, line). \<lparr>line_number = int i + 1,
                 original = rstrip_chars line [CHR 0x0A, CHR 0x0D],
                 translated = [], is_translated = False, line_status = Pending,
                 skip_translation = False\<rparr>)"
  have eq: "lines (snd (load_from_file fs p td)) = map mk (enumerate 0 (read_file_lines fs p))"
    using True by (simp add: load_from_file_def Let_def mk_def)
  have "is_translated (mk x) = (strip (translated (mk x)) \<noteq> [])" for x
    by (cases x) (simp add: mk_def strip_Nil)
  then show ?thesis unfolding eq by auto
qed

lemma translate_line_flags:
  assumes "\<forall>l \<in> set (lines td). is_translated l = (strip (translated l) \<noteq> [])"
  shows "\<forall>l \<in> set (lines (snd (translate_line i t td))).
           is_translated l = (strip (translated l) \<noteq> [])"
proof (cases "0 \<le> i \<and> i < int (length (lines td))")
  case False
  then have "snd (translate_line i t td) = td"
    by (simp only: translate_line_def if_False snd_conv)
  with assms show ?thesis by simp
next
  case True
  define l' where "l' = (lines td ! nat i)\<lparr>translated := t, is_translated := (strip t \<noteq> []),
           line_status := (if strip t \<noteq> [] then Completed else Pending)\<rparr>"
  have eq: "lines (snd (translate_line i t td)) = (lines td)[nat i := l']"
    using True by (simp add: translate_line_def Let_def l'_def)
  have new: "is_translated l' = (strip (translated l') \<noteq> [])" by (simp add: l'_def)
  show ?thesis
  proof
    fix l
    assume "l \<in> set (lines (snd (translate_line i t td)))"
    then have "l = l' \<or> l \<in> set (lines td)" unfolding eq by (rule in_set_updateD)
    with assms new show "is_translated l = (strip (translated l) \<noteq> [])" by blast
  qed
qed

lemma toggle_skip_translation_flags:
  assumes "\<forall>l \<in> set (lines td). is_translated l = (strip (translated l) \<noteq> [])"
  shows "\<forall>l \<in> set (lines (snd (toggle_skip_translation i td))).
           is_translated l = (strip (translated l) \<noteq> [])"
proof (cases "0 \<le> i \<and> i < int (length (lines td))")
  case False
  then have "snd (toggle_skip_translation i td) = td"
    by (simp only: toggle_skip_translation_def if_False snd_conv)
  with assms show ?thesis by simp
next
  case True
  define l0 where "l0 = lines td ! nat i"
  define l1 where "l1 = l0\<lparr>skip_translation := \<not> skip_translation l0\<rparr>"
  define l2 where "l2 = (if skip_translation l1 then l1\<lparr>line_status := Skipped\<rparr>
                  else if is_translated l1 then l1\<lparr>line_status := Completed\<rparr>
                  else l1\<lparr>line_status := Pending\<rparr>)"
  have eq: "lines (snd (toggle_skip_translation i td)) = (lines td)[nat i := l2]"
    using True by (simp add: toggle_skip_translation_def Let_def l0_def l1_def l2_def)
  have "nat i < length (lines td)" using True by linarith
  then have "l0 \<in> set (lines td)" unfolding l0_def by (rule nth_mem)
  with assms have old: "is_translated l0 = (strip (translated l0) \<noteq> [])" by blast
  have "is_translated l2 = is_translated l0" and "translated l2 = translated l0"
    by (simp_all add: l2_def l1_def)
  with old have new: "is_translated l2 = (strip (translated l2) \<noteq> [])" by simp
  show ?thesis
  proof
    fix l
    assume "l \<in> set (lines (snd (toggle_skip_translation i td)))"
    then have "l = l2 \<or> l \<in> set (lines td)" unfolding eq by (rule in_set_updateD)
    with assms new show "is_translated l = (strip (translated l) \<noteq> [])" by blast
  qed
qed

lemma apply_td_op_flags:
  assumes "\<forall>l \<in> set (lines td). is_translated l = (strip (translated l) \<noteq> [])"
  shows "\<forall>l \<in> set (lines (apply_td_op op td)).
           is_translated l = (strip (translated l) \<noteq> [])"
proof (cases op)
  case (Load_from_file fs p)
  show ?thesis unfolding Load_from_file apply_td_op.simps
    using assms by (rule load_from_file_flags)
next
  case (Translate_line i t)
  show ?thesis unfolding Translate_line apply_td_op.simps
    using assms by (rule translate_line_flags)
next
  case (Toggle_skip_translation i)
  show ?thesis unfolding Toggle_skip_translation apply_td_op.simps
    using assms by (rule toggle_skip_translation_flags)
qed

lemma fold_apply_td_op_flags:
  assumes "\<forall>l \<in> set (lines td). is_translated l = (strip (translated l) \<noteq> [])"
  shows "\<forall>l \<in> set (lines (fold apply_td_op ops td)).
           is_translated l = (strip (translated l) \<noteq> [])"
  using assms
proof (induction ops arbitrary: td)
  case Nil
  then show ?case by simp
next
  case (Cons op ops)
  from Cons.prems have "\<forall>l \<in> set (lines (apply_td_op op td)).
      is_translated l = (strip (translated l) \<noteq> [])"
    by (rule apply_td_op_flags)
  then have "\<forall>l \<in> set (lines (fold apply_td_op ops (apply_td_op op td))).
      is_translated l = (strip (translated l) \<noteq> [])"
    by (rule Cons.IH)
  then show ?case by simp
qed

text \<open>
  Claim C9. A \<open>TranslationData\<close> object starts with no lines. After any sequence of
  \<open>load_from_file\<close>, \<open>translate_line\<close> and \<open>toggle_skip_translation\<close>, whatever their
  arguments and whether they succeed or not, every line has \<open>is_translated\<close> true exactly
  when its \<open>translated\<close> text is not empty after stripping.
\<close>

theorem translation_data_flag_invariant:
  "\<forall>l \<in> set (lines (run_td_ops ops)). is_translated l = (strip (translated l) \<noteq> [])"
  unfolding run_td_ops_def
  by (rule fold_apply_td_op_flags) (simp add: new_translation_data_def)

theorem translation_data_flag_invariant_witness:
  "\<lparr>line_number = 1, original = ''Hello'', translated = ''Sawasdee'', is_translated = True,
     line_status = Skipped, skip_translation = True\<rparr>
     \<in> set (lines (run_td_ops
          [Load_from_file \<lparr>files = [''game.txt'' \<mapsto> [''Hello\<newline>'', ''World'']], dirs = {},
                            denied = {}, io_budget = None\<rparr> ''game.txt'',
           Translate_line 0 ''Sawasdee'', Toggle_skip_translation 0, Translate_line 1 '' '']))
   \<and> is_translated \<lparr>line_number = 1, original = ''Hello'', translated = ''Sawasdee'',
        is_translated = True, line_status = Skipped, skip_translation = True\<rparr>
     = (strip (translated \<lparr>line_number = 1, original = ''Hello'', translated = ''Sawasdee'',
        is_translated = True, line_status = Skipped, skip_translation = True\<rparr>) \<noteq> [])"
proof -
  let ?l = "\<lparr>line_number = 1, original = ''Hello'', translated = ''Sawasdee'',
     is_translated = True, line_status = Skipped, skip_translation = True\<rparr>"
  let ?ops = "[Load_from_file \<lparr>files = [''game.txt'' \<mapsto> [''Hello\<newline>'', ''World'']], dirs = {},
                            denied = {}, io_budget = None\<rparr> ''game.txt'',
           Translate_line 0 ''Sawasdee'', Toggle_skip_translation 0, Translate_line 1 '' '']"
  have m: "?l \<in> set (lines (run_td_ops ?ops))"
    by (simp add: run_td_ops_def new_translation_data_def load_from_file_def
        validate_file_path_def read_file_lines_def path_exists_def translate_line_def
        toggle_skip_translation_def rstrip_chars_def strip_def lstrip_def rstrip_def
        is_space_def Let_def)
  with translation_data_flag_invariant[of ?ops] show ?thesis
    by blast
qed


end
